theory Spec2Isabelle
  imports Main "HOL-Library.AList"
begin

section \<open>JavaScript values that reach the layer\<close>

text \<open>
  A \<^verbatim>\<open>Date\<close> instance. A valid one is given by the text its \<^verbatim>\<open>toISOString()\<close>
  returns (\<^verbatim>\<open>YYYY-MM-DDTHH:mm:ss.sssZ\<close>); on an invalid one (time value NaN)
  \<^verbatim>\<open>toISOString()\<close> throws a RangeError.
\<close>

datatype jsdate = Date_valid string | Date_invalid

text \<open>
  The values a parameter or a descriptor's \<^verbatim>\<open>value\<close> field holds. A number is
  represented by its string form \<^verbatim>\<open>'' + value\<close> (\<^verbatim>\<open>0.99\<close> is \<open>JNum ''0.99''\<close>,
  \<^verbatim>\<open>1e21\<close> is \<open>JNum ''1e+21''\<close>), which is all that \<^verbatim>\<open>getType\<close> and
  \<^verbatim>\<open>decimalPlaces\<close> ever read of it.
\<close>

datatype jsval =
    JUndefined
  | JNull
  | JBool bool
  | JNum string
  | JStr string
  | JDate jsdate

text \<open>
  The descriptor object \<^verbatim>\<open>{value, type, maxLength, decimals, timezone}\<close>. An absent
  field is \<open>JUndefined\<close> or \<open>None\<close>.
\<close>

record descriptor =
  pvalue :: jsval
  ptype :: "string option"
  maxLength :: "int option"
  decimals :: "int option"
  timezone :: jsval

text \<open>One entry of \<^verbatim>\<open>params\<close>: a raw value (which may be \<^verbatim>\<open>null\<close>) or a descriptor.\<close>

datatype param = Raw jsval | Descriptor descriptor

text \<open>The column types of the driver that \<^verbatim>\<open>getType\<close> can return. \<open>NVarChar None\<close> is
  the bare \<^verbatim>\<open>mssql.NVarChar\<close>, \<open>NVarChar (Some n)\<close> is \<^verbatim>\<open>mssql.NVarChar(n)\<close>.\<close>

datatype sqltype =
    NVarChar "int option"
  | Int_type
  | Decimal "int option" "int option"
  | Date
  | DateTime2
  | DateTimeOffset

datatype error =
    AssertionError string
  | RangeError
  | DriverError string

section \<open>The type inferencer\<close>

subsection \<open>\<^verbatim>\<open>decimalPlaces\<close>\<close>

definition is_digit :: "char \<Rightarrow> bool" where
  "is_digit c = (c \<in> set ''0123456789'')"

text \<open>The value of a decimal digit, from its character code.\<close>

definition digit_val :: "char \<Rightarrow> nat" where
  "digit_val c = of_char c - 48"

definition nat_of_digits :: "string \<Rightarrow> nat" where
  "nat_of_digits ds = foldl (\<lambda>a c. 10 * a + digit_val c) 0 ds"

text \<open>The unary plus of \<^verbatim>\<open>+match[2]\<close>, on a text that matched \<^verbatim>\<open>[+-]?\d+\<close>.\<close>

fun to_int :: "string \<Rightarrow> int" where
  "to_int [] = 0"
| "to_int (c # ds) =
     (if c = CHR ''-'' then - int (nat_of_digits ds)
      else if c = CHR ''+'' then int (nat_of_digits ds)
      else int (nat_of_digits (c # ds)))"

text \<open>\<^verbatim>\<open>(?:[eE]([+-]?\d+))\<close> against a whole text; the result is group 2.\<close>

fun exp_part :: "string \<Rightarrow> string option" where
  "exp_part [] = None"
| "exp_part (c # r) =
     (if c = CHR ''e'' \<or> c = CHR ''E'' then
        (let ds = (case r of [] \<Rightarrow> [] | x # r' \<Rightarrow> if x = CHR ''+'' \<or> x = CHR ''-'' then r' else r)
         in if ds \<noteq> [] \<and> list_all is_digit ds then Some r else None)
      else None)"

text \<open>\<^verbatim>\<open>(?:[eE]([+-]?\d+))?$\<close> against a whole text.\<close>

definition tail_match :: "string \<Rightarrow> string option option" where
  "tail_match s = (if s = [] then Some None else map_option Some (exp_part s))"

text \<open>The whole pattern \<^verbatim>\<open>(?:\.(\d+))?(?:[eE]([+-]?\d+))?$\<close> tried at the start of
  a text that has to be consumed to its end; the result is groups 1 and 2.\<close>

fun match_at :: "string \<Rightarrow> (string option \<times> string option) option" where
  "match_at [] = Some (None, None)"
| "match_at (c # r) =
     (if c = CHR ''.'' then
        (let ds = takeWhile is_digit r in
         if ds = [] then None
         else map_option (Pair (Some ds)) (tail_match (dropWhile is_digit r)))
      else map_option (Pair None) (tail_match (c # r)))"

text \<open>\<^verbatim>\<open>String.prototype.match\<close> without the \<^verbatim>\<open>g\<close> flag: the leftmost position
  at which the pattern matches.\<close>

fun regex_match :: "string \<Rightarrow> (string option \<times> string option) option" where
  "regex_match [] = match_at []"
| "regex_match (c # cs) =
     (case match_at (c # cs) of Some g \<Rightarrow> Some g | None \<Rightarrow> regex_match cs)"

definition decimalPlaces :: "string \<Rightarrow> int" where
  "decimalPlaces num =
     (case regex_match num of
        Some (m1, m2) \<Rightarrow>
          max 0 ((case m1 of Some ds \<Rightarrow> int (length ds) | None \<Rightarrow> 0)
                 - (case m2 of Some e \<Rightarrow> to_int e | None \<Rightarrow> 0))
      | None \<Rightarrow> 0)"

subsection \<open>\<^verbatim>\<open>getType\<close>\<close>

text \<open>The \<^verbatim>\<open>else\<close> branch of \<^verbatim>\<open>getType\<close>: no descriptor, or a descriptor whose
  \<^verbatim>\<open>type\<close> is falsy.\<close>

fun typeOfValue :: "jsval \<Rightarrow> sqltype" where
  "typeOfValue (JDate d) = DateTime2"
| "typeOfValue (JNum s) = Decimal (Some (int (length s))) (Some (decimalPlaces s))"
| "typeOfValue v = NVarChar None"

text \<open>The \<^verbatim>\<open>switch (param.type)\<close>.\<close>

definition typeOfDescriptor :: "descriptor \<Rightarrow> string \<Rightarrow> sqltype" where
  "typeOfDescriptor p t =
     (if t = ''integer'' then Int_type
      else if t = ''number'' then Decimal (maxLength p) (decimals p)
      else if t = ''date'' then Date
      else if t = ''datetime'' then
        (if timezone p = JStr ''ignore'' then DateTime2 else DateTimeOffset)
      else if t = ''string'' then
        (case maxLength p of
           Some n \<Rightarrow> if n \<noteq> 0 then NVarChar (Some n) else NVarChar None
         | None \<Rightarrow> NVarChar None)
      else NVarChar None)"

text \<open>\<^verbatim>\<open>getType(value, param)\<close>; \<open>None\<close> is a \<^verbatim>\<open>param\<close> that is not passed or is
  \<^verbatim>\<open>null\<close>, both falsy.\<close>

fun getType :: "jsval \<Rightarrow> descriptor option \<Rightarrow> sqltype" where
  "getType v None = typeOfValue v"
| "getType v (Some p) =
     (case ptype p of
        None \<Rightarrow> typeOfValue v
      | Some t \<Rightarrow> if t \<noteq> [] then typeOfDescriptor p t else typeOfValue v)"

section \<open>The parameter binder\<close>

subsection \<open>Positional placeholders: \<^verbatim>\<open>convertParams\<close>\<close>

text \<open>\<^verbatim>\<open>\w\<close> of a regular expression without the \<^verbatim>\<open>u\<close> flag.\<close>

definition is_word :: "char \<Rightarrow> bool" where
  "is_word c =
     (c \<in> set ''abcdefghijklmnopqrstuvwxyzABCDEFGHIJKLMNOPQRSTUVWXYZ0123456789_'')"

text \<open>
  \<^verbatim>\<open>statement.match(/(\$\w*\b)/g)\<close>: every match, left to right, each search resuming
  where the last match ended. After \<^verbatim>\<open>$\<close>, \<^verbatim>\<open>\w*\<close> takes the longest run of word
  characters and \<^verbatim>\<open>\b\<close> then holds exactly when that run is not empty (with an empty
  run both neighbours of the position are non-word characters or the end). \<open>[]\<close> stands
  for the \<^verbatim>\<open>null\<close> that \<^verbatim>\<open>match\<close> returns when nothing matches.
\<close>

function match_tokens :: "string \<Rightarrow> string list" where
  "match_tokens [] = []"
| "match_tokens (c # cs) =
     (if c = CHR ''$'' \<and> takeWhile is_word cs \<noteq> []
      then (c # takeWhile is_word cs) # match_tokens (dropWhile is_word cs)
      else match_tokens cs)"
  by pat_completeness auto
termination
  by (relation "measure length") (auto simp: less_Suc_eq_le length_dropWhile_le)

text \<open>\<^verbatim>\<open>statement.replace(param, replacement)\<close> with a string pattern: the first
  occurrence only. The replacement \<^verbatim>\<open>'@p' + key\<close> holds no \<^verbatim>\<open>$\<close>, so it is taken
  literally.\<close>

fun replace_first :: "string \<Rightarrow> string \<Rightarrow> string \<Rightarrow> string" where
  "replace_first pat rep [] = (if pat = [] then rep else [])"
| "replace_first pat rep (c # cs) =
     (if take (length pat) (c # cs) = pat then rep @ drop (length pat) (c # cs)
      else c # replace_first pat rep cs)"

datatype params = Array "param list" | Object "(string \<times> param) list"

text \<open>
  \<^verbatim>\<open>params[Number(key) - 1]\<close>. \<^verbatim>\<open>Number\<close> is the built-in conversion, a parameter of
  the model: on a run of word characters it yields a natural number or else NaN or
  Infinity, here \<open>None\<close>. An index outside the array reads \<^verbatim>\<open>undefined\<close>.
\<close>

definition element_at :: "param list \<Rightarrow> nat option \<Rightarrow> param" where
  "element_at ps n =
     (case n of
        None \<Rightarrow> Raw JUndefined
      | Some i \<Rightarrow> if 1 \<le> i \<and> i - 1 < length ps then ps ! (i - 1) else Raw JUndefined)"

text \<open>\<^verbatim>\<open>Number\<close> on a text of decimal digits.\<close>

definition Number_decimal :: "string \<Rightarrow> nat option" where
  "Number_decimal key =
     (if key \<noteq> [] \<and> list_all is_digit key then Some (nat_of_digits key) else None)"

definition arity_message :: string where
  "arity_message = ''There are more parameters in statement than in object params''"

text \<open>
  \<^verbatim>\<open>convertParams\<close>, returning the rewritten \<^verbatim>\<open>statement\<close> and \<^verbatim>\<open>params\<close> that the
  source assigns to its closure variables. \<^verbatim>\<open>paramsObj\<close> is an association list in
  \<^verbatim>\<open>Object.keys\<close> order: assigning to a key it has keeps the key's place.
\<close>

definition convertParams ::
  "(string \<Rightarrow> nat option) \<Rightarrow> string \<Rightarrow> params \<Rightarrow> error + (string \<times> (string \<times> param) list)" where
  "convertParams Number statement params =
     (case params of
        Array ps \<Rightarrow>
          (let match = match_tokens statement in
           if \<not> length match \<le> length ps then Inl (AssertionError arity_message)
           else
             Inr (foldl
               (\<lambda>(st, paramsObj) param.
                  let key = tl param in
                  (replace_first param (''@p'' @ key) st,
                   AList.update (''p'' @ key) (element_at ps (Number key)) paramsObj))
               (statement, []) match))
      | Object kvs \<Rightarrow> Inr (statement, kvs))"

subsection \<open>One parameter: bound value and declared type\<close>

text \<open>
  The body of the \<^verbatim>\<open>forEach\<close> in \<^verbatim>\<open>query\<close>, for one \<^verbatim>\<open>param\<close>: the value stored in
  \<^verbatim>\<open>input[key]\<close> and the type given to \<^verbatim>\<open>ps.input\<close>. \<^verbatim>\<open>typeof null\<close> is
  \<^verbatim>\<open>'object'\<close>, so \<^verbatim>\<open>null\<close> takes the first branch, where \<^verbatim>\<open>param && ...\<close> is falsy.
  \<^verbatim>\<open>new Date(x)\<close> is the built-in constructor, a parameter of the model.
\<close>

fun bindParam :: "(jsval \<Rightarrow> jsdate) \<Rightarrow> param \<Rightarrow> error + (jsval \<times> sqltype)" where
  "bindParam newDate (Descriptor d) =
     (let input = (if pvalue d \<noteq> JUndefined then pvalue d else JNull);
          input' =
            (if input \<noteq> JNull \<and> (ptype d = Some ''date'' \<or> ptype d = Some ''datetime'')
                \<and> (case input of JDate x \<Rightarrow> False | _ \<Rightarrow> True)
             then JDate (newDate input) else input)
      in Inr (input', getType input' (Some d)))"
| "bindParam newDate (Raw JNull) = Inr (JNull, getType JNull None)"
| "bindParam newDate (Raw (JDate x)) =
     (case x of
        Date_valid isoText \<Rightarrow>
          (let input = JStr (take 23 isoText @ ''000'') in Inr (input, getType input None))
      | Date_invalid \<Rightarrow> Inl RangeError)"
| "bindParam newDate (Raw v) =
     (let input = (if v \<noteq> JUndefined then v else JNull) in Inr (input, getType input None))"

section \<open>The result normalizer\<close>

text \<open>
  What the driver puts in a column of a recordset row. Numbers are given by their
  string form; a \<^verbatim>\<open>Date\<close> or \<^verbatim>\<open>Buffer\<close> is an object, known by its identity.
\<close>

datatype colval = CNull | CBool bool | CNum string | CStr string | CObject nat

text \<open>For a column name that the statement selects more than once the driver stores the
  array of the values; \<open>Multi\<close> is the case \<^verbatim>\<open>Array.isArray(value)\<close>.\<close>

datatype cell = Single colval | Multi "colval list"

type_synonym row = "(string \<times> cell) list"

text \<open>\<^verbatim>\<open>===\<close>: NaN differs from itself, objects are compared by identity.\<close>

fun strict_eq :: "colval \<Rightarrow> colval \<Rightarrow> bool" where
  "strict_eq (CNum a) (CNum b) = (a = b \<and> a \<noteq> ''NaN'')"
| "strict_eq a b = (a = b)"

text \<open>The body of the \<^verbatim>\<open>forEach\<close> in \<^verbatim>\<open>fold\<close>, for one key.\<close>

definition fold_key :: "string \<Rightarrow> row \<Rightarrow> row" where
  "fold_key key r =
     (case map_of r key of
        Some (Multi v) \<Rightarrow>
          if length v > 1 then
            (let first = v ! 0 in
             if list_all (\<lambda>el. strict_eq el first) v
             then AList.update key (Single first) r else r)
          else r
      | _ \<Rightarrow> r)"

text \<open>\<^verbatim>\<open>fold\<close>: the keys are read once, before the loop.\<close>

definition fold_record :: "row \<Rightarrow> row" where
  "fold_record r = foldl (\<lambda>acc key. fold_key key acc) r (map fst r)"

text \<open>\<^verbatim>\<open>recordset ? recordset.map(fold) : []\<close>.\<close>

definition fold_recordset :: "row list option \<Rightarrow> row list" where
  "fold_recordset recordset = (case recordset of Some rs \<Rightarrow> map fold_record rs | None \<Rightarrow> [])"

section \<open>The driver, the world and promises\<close>

text \<open>
  The calls the layer makes on the driver, in the order it makes them. A pool or a
  transaction object is known by the number it got when it was constructed.
\<close>

datatype call =
    NewPool nat
  | PoolConnect nat
  | PoolClose nat
  | RequestQuery string
  | PsInput string sqltype
  | PsPrepare string
  | PsExecute "(string \<times> jsval) list"
  | PsUnprepare
  | TxBegin nat string
  | TxCommit nat
  | TxRollback nat

text \<open>
  The driver is outside the repository: its operations are parameters, functions on a
  driver state \<open>'d\<close> that give the outcome of the call (\<open>Some e\<close> or \<open>Inl e\<close> when the
  returned promise rejects with \<open>e\<close>). A transaction operation also tells whether the
  driver emitted the \<^verbatim>\<open>'rollback'\<close> event on that transaction while it ran.
\<close>

record 'd driver =
  pool_connect :: "nat \<Rightarrow> 'd \<Rightarrow> error option \<times> 'd"
  pool_close :: "nat \<Rightarrow> 'd \<Rightarrow> error option \<times> 'd"
  request_query :: "string \<Rightarrow> 'd \<Rightarrow> (error + row list option) \<times> 'd"
  ps_prepare :: "string \<Rightarrow> 'd \<Rightarrow> error option \<times> 'd"
  ps_execute :: "(string \<times> jsval) list \<Rightarrow> 'd \<Rightarrow> (error + row list option) \<times> 'd"
  ps_unprepare :: "'d \<Rightarrow> error option \<times> 'd"
  tx_begin :: "nat \<Rightarrow> string \<Rightarrow> 'd \<Rightarrow> (error option \<times> bool) \<times> 'd"
  tx_commit :: "nat \<Rightarrow> 'd \<Rightarrow> (error option \<times> bool) \<times> 'd"
  tx_rollback :: "nat \<Rightarrow> 'd \<Rightarrow> (error option \<times> bool) \<times> 'd"

text \<open>The normalized configuration, as far as \<^verbatim>\<open>connect\<close> reads it. \<open>port\<close> is the
  text the template literal prints for it; \<open>None\<close> is \<^verbatim>\<open>undefined\<close>.\<close>

record config =
  server :: string
  port :: string
  database :: "string option"
  user :: "string option"
  password :: "string option"

text \<open>An entry of \<^verbatim>\<open>this.connections\<close>: \<^verbatim>\<open>{config, connection}\<close>.\<close>

record entry =
  entry_config :: config
  entry_connection :: nat

text \<open>
  Everything a call chain reads and writes: the driver's state, the calls made so far,
  the \<^verbatim>\<open>connections\<close> map of the instance (in insertion order; \<open>[]\<close> also stands for
  the \<^verbatim>\<open>undefined\<close> and \<^verbatim>\<open>null\<close> that \<^verbatim>\<open>connect\<close> replaces by a new map), the next
  object identity, the module's \<^verbatim>\<open>rolledBack\<close> WeakMap of step-by-step mode, and the
  \<^verbatim>\<open>rolledBack\<close> variable that a call of \<^verbatim>\<open>transaction\<close> declares for its transaction
  object (\<open>rolledBack_var\<close>).
\<close>

record 'd world =
  dstate :: 'd
  calls :: "call list"
  connections :: "(string \<times> entry) list"
  next_id :: nat
  rolledBack :: "nat \<Rightarrow> bool option"
  rolledBack_var :: "nat \<Rightarrow> bool option"

text \<open>A promise: run on the world, it settles as rejected (\<open>Inl\<close>) or resolved.\<close>

type_synonym ('d, 'a) promise = "'d world \<Rightarrow> (error + 'a) \<times> 'd world"

definition resolve :: "'a \<Rightarrow> ('d, 'a) promise" where
  "resolve x = (\<lambda>w. (Inr x, w))"

definition reject :: "error \<Rightarrow> ('d, 'a) promise" where
  "reject e = (\<lambda>w. (Inl e, w))"

text \<open>\<^verbatim>\<open>p.then(f)\<close> and \<^verbatim>\<open>p.catch(h)\<close>.\<close>

definition p_then :: "('d, 'a) promise \<Rightarrow> ('a \<Rightarrow> ('d, 'b) promise) \<Rightarrow> ('d, 'b) promise" where
  "p_then p f = (\<lambda>w. case p w of (Inl e, w') \<Rightarrow> (Inl e, w') | (Inr x, w') \<Rightarrow> f x w')"

definition p_catch :: "('d, 'a) promise \<Rightarrow> (error \<Rightarrow> ('d, 'a) promise) \<Rightarrow> ('d, 'a) promise" where
  "p_catch p h = (\<lambda>w. case p w of (Inl e, w') \<Rightarrow> h e w' | (Inr x, w') \<Rightarrow> (Inr x, w'))"

text \<open>A driver call that resolves with nothing, and one that resolves with a recordset.\<close>

definition driver_call :: "call \<Rightarrow> ('d \<Rightarrow> error option \<times> 'd) \<Rightarrow> ('d, unit) promise" where
  "driver_call c op =
     (\<lambda>w. case op (dstate w) of
        (r, d') \<Rightarrow>
          ((case r of None \<Rightarrow> Inr () | Some e \<Rightarrow> Inl e),
           w\<lparr>dstate := d', calls := calls w @ [c]\<rparr>))"

definition driver_fetch ::
  "call \<Rightarrow> ('d \<Rightarrow> (error + row list option) \<times> 'd) \<Rightarrow> ('d, row list option) promise" where
  "driver_fetch c op =
     (\<lambda>w. case op (dstate w) of (r, d') \<Rightarrow> (r, w\<lparr>dstate := d', calls := calls w @ [c]\<rparr>))"

text \<open>
  The handlers subscribed with \<^verbatim>\<open>transaction.on('rollback', ...)\<close>: \<^verbatim>\<open>transaction\<close> and
  \<^verbatim>\<open>beginTransaction\<close> each subscribe theirs in the step that initialises their flag
  for the transaction, so a flag that exists is a handler that is subscribed.
\<close>

definition on_rollback :: "nat \<Rightarrow> 'd world \<Rightarrow> 'd world" where
  "on_rollback t w =
     w\<lparr>rolledBack :=
         (case rolledBack w t of None \<Rightarrow> rolledBack w | Some b \<Rightarrow> (rolledBack w)(t \<mapsto> True)),
       rolledBack_var :=
         (case rolledBack_var w t of
            None \<Rightarrow> rolledBack_var w
          | Some b \<Rightarrow> (rolledBack_var w)(t \<mapsto> True))\<rparr>"

text \<open>A call on transaction \<open>t\<close>; the handlers run when the driver emits the event.\<close>

definition tx_call ::
  "nat \<Rightarrow> call \<Rightarrow> ('d \<Rightarrow> (error option \<times> bool) \<times> 'd) \<Rightarrow> ('d, unit) promise" where
  "tx_call t c op =
     (\<lambda>w. case op (dstate w) of
        ((r, emitted), d') \<Rightarrow>
          (let w' = w\<lparr>dstate := d', calls := calls w @ [c]\<rparr> in
           ((case r of None \<Rightarrow> Inr () | Some e \<Rightarrow> Inl e),
            (if emitted then on_rollback t w' else w'))))"

section \<open>The connection manager\<close>

definition template :: "string option \<Rightarrow> string" where
  "template x = (case x of None \<Rightarrow> ''undefined'' | Some s \<Rightarrow> s)"

definition getConnectionKey :: "config \<Rightarrow> string" where
  "getConnectionKey cfg =
     server cfg @ port cfg @ template (database cfg) @ template (user cfg)"

text \<open>The tail of \<^verbatim>\<open>connect\<close>: a new pool, connected, then registered under the key.\<close>

definition open_pool :: "'d driver \<Rightarrow> config \<Rightarrow> ('d, nat) promise" where
  "open_pool drv cfg =
     (\<lambda>w. let n = next_id w in
        p_then (driver_call (PoolConnect n) (pool_connect drv n))
          (\<lambda>_ w'.
             (Inr n,
              w'\<lparr>connections :=
                   AList.update (getConnectionKey cfg)
                     \<lparr>entry_config = cfg, entry_connection = n\<rparr> (connections w')\<rparr>))
          (w\<lparr>next_id := Suc n, calls := calls w @ [NewPool n]\<rparr>))"

text \<open>\<^verbatim>\<open>connect\<close>. The promise of the stale pool's \<^verbatim>\<open>close()\<close> is dropped: its
  outcome is not read.\<close>

definition connect :: "'d driver \<Rightarrow> config \<Rightarrow> ('d, nat) promise" where
  "connect drv cfg =
     (\<lambda>w. case map_of (connections w) (getConnectionKey cfg) of
        Some connection \<Rightarrow>
          if password cfg = password (entry_config connection)
          then resolve (entry_connection connection) w
          else
            (case driver_call (PoolClose (entry_connection connection))
                    (pool_close drv (entry_connection connection)) w of
               (_, w') \<Rightarrow> open_pool drv cfg w')
      | None \<Rightarrow> open_pool drv cfg w)"

text \<open>\<^verbatim>\<open>close\<close>: the closes are chained, so one that fails ends the chain; the map is
  dropped at once.\<close>

fun close_each :: "'d driver \<Rightarrow> nat list \<Rightarrow> ('d, unit) promise" where
  "close_each drv [] = resolve ()"
| "close_each drv (n # ns) =
     p_then (driver_call (PoolClose n) (pool_close drv n)) (\<lambda>_. close_each drv ns)"

definition close :: "'d driver \<Rightarrow> ('d, unit) promise" where
  "close drv =
     (\<lambda>w. close_each drv (map (entry_connection \<circ> snd) (connections w))
             (w\<lparr>connections := []\<rparr>))"

section \<open>\<^verbatim>\<open>query\<close> and \<^verbatim>\<open>execute\<close>\<close>

text \<open>The \<^verbatim>\<open>forEach\<close> over \<^verbatim>\<open>Object.keys(params)\<close>: each parameter fills \<^verbatim>\<open>input[key]\<close>
  and is declared with \<^verbatim>\<open>ps.input(key, type)\<close>; a throw ends the loop.\<close>

fun bind_inputs ::
  "(jsval \<Rightarrow> jsdate) \<Rightarrow> (string \<times> param) list \<Rightarrow> (string \<times> jsval) list
     \<Rightarrow> ('d, (string \<times> jsval) list) promise" where
  "bind_inputs newDate [] input = resolve input"
| "bind_inputs newDate ((key, param) # rest) input =
     (case bindParam newDate param of
        Inl e \<Rightarrow> reject e
      | Inr (v, t) \<Rightarrow>
          (\<lambda>w. bind_inputs newDate rest (AList.update key v input)
                 (w\<lparr>calls := calls w @ [PsInput key t]\<rparr>)))"

text \<open>The last \<^verbatim>\<open>then\<close> of \<^verbatim>\<open>query\<close>: execute, and unprepare in the handler of either
  outcome. The \<^verbatim>\<open>catch\<close> is chained after the \<^verbatim>\<open>then\<close>, so it also receives a
  rejection of the first \<^verbatim>\<open>unprepare\<close>.\<close>

definition execute_unprepare ::
  "'d driver \<Rightarrow> (string \<times> jsval) list \<Rightarrow> ('d, row list) promise" where
  "execute_unprepare drv input =
     p_catch
       (p_then (driver_fetch (PsExecute input) (ps_execute drv input))
          (\<lambda>recordset.
             p_then (driver_call PsUnprepare (ps_unprepare drv))
               (\<lambda>_. resolve (fold_recordset recordset))))
       (\<lambda>error. p_then (driver_call PsUnprepare (ps_unprepare drv)) (\<lambda>_. reject error))"

text \<open>
  \<^verbatim>\<open>query(statement, params, options)\<close>. \<open>params = None\<close> is \<^verbatim>\<open>undefined\<close> or \<^verbatim>\<open>null\<close>;
  \<open>tx\<close> is \<^verbatim>\<open>options.transaction\<close>. The closure variables \<^verbatim>\<open>statement\<close> and \<^verbatim>\<open>input\<close>
  are handed from one \<^verbatim>\<open>then\<close> to the next.
\<close>

definition query ::
  "(string \<Rightarrow> nat option) \<Rightarrow> (jsval \<Rightarrow> jsdate) \<Rightarrow> 'd driver \<Rightarrow> config \<Rightarrow> string \<Rightarrow> params option
     \<Rightarrow> nat option \<Rightarrow> ('d, row list) promise" where
  "query Number newDate drv cfg statement params tx =
     (let connecting = (case tx of Some t \<Rightarrow> resolve t | None \<Rightarrow> connect drv cfg) in
      case params of
        None \<Rightarrow>
          p_then connecting
            (\<lambda>connection.
               p_then (driver_fetch (RequestQuery statement) (request_query drv statement))
                 (\<lambda>recordset. resolve (fold_recordset recordset)))
      | Some ps \<Rightarrow>
          p_then
            (p_then
               (p_then connecting
                  (\<lambda>connection.
                     case convertParams Number statement ps of
                       Inl e \<Rightarrow> reject e
                     | Inr (statement', params') \<Rightarrow>
                         p_then (bind_inputs newDate params' [])
                           (\<lambda>input. resolve (statement', input))))
               (\<lambda>(statement', input).
                  p_then (driver_call (PsPrepare statement') (ps_prepare drv statement'))
                    (\<lambda>_. resolve input)))
            (execute_unprepare drv))"

definition execute ::
  "(string \<Rightarrow> nat option) \<Rightarrow> (jsval \<Rightarrow> jsdate) \<Rightarrow> 'd driver \<Rightarrow> config \<Rightarrow> string \<Rightarrow> params option
     \<Rightarrow> nat option \<Rightarrow> ('d, row list) promise" where
  "execute = query"

section \<open>The transaction manager\<close>

text \<open>\<^verbatim>\<open>options.ISOLATION_LEVEL || this.ISOLATION_LEVEL\<close>.\<close>

definition isolationLevel :: "string option \<Rightarrow> string \<Rightarrow> string" where
  "isolationLevel opt dflt = (case opt of Some l \<Rightarrow> if l \<noteq> [] then l else dflt | None \<Rightarrow> dflt)"

subsection \<open>Scoped mode\<close>

text \<open>The chain before the \<^verbatim>\<open>catch\<close>: begin, then \<^verbatim>\<open>fn(transaction)\<close>, then commit.
  \<open>fn\<close> is the caller's work, any promise on the world.\<close>

definition tx_attempt ::
  "'d driver \<Rightarrow> nat \<Rightarrow> string \<Rightarrow> (nat \<Rightarrow> ('d, 'a) promise) \<Rightarrow> ('d, 'a) promise" where
  "tx_attempt drv t level fn =
     p_then
       (p_then (tx_call t (TxBegin t level) (tx_begin drv t level)) (\<lambda>_. fn t))
       (\<lambda>res. p_then (tx_call t (TxCommit t) (tx_commit drv t)) (\<lambda>_. resolve res))"

text \<open>The handler of the \<^verbatim>\<open>catch\<close>.\<close>

definition tx_recover :: "'d driver \<Rightarrow> nat \<Rightarrow> error \<Rightarrow> ('d, 'a) promise" where
  "tx_recover drv t err =
     (\<lambda>w. if rolledBack_var w t \<noteq> Some True
        then p_then (tx_call t (TxRollback t) (tx_rollback drv t)) (\<lambda>_. reject err) w
        else reject err w)"

text \<open>The step that constructs the transaction object, declares \<^verbatim>\<open>rolledBack = false\<close>
  and subscribes the handler.\<close>

definition tx_new :: "'d world \<Rightarrow> 'd world" where
  "tx_new w =
     w\<lparr>next_id := Suc (next_id w), rolledBack_var := (rolledBack_var w)(next_id w \<mapsto> False)\<rparr>"

definition transaction ::
  "'d driver \<Rightarrow> config \<Rightarrow> string \<Rightarrow> (nat \<Rightarrow> ('d, 'a) promise) \<Rightarrow> string option \<Rightarrow> ('d, 'a) promise" where
  "transaction drv cfg dflt fn opt =
     p_then (connect drv cfg)
       (\<lambda>connection w.
          let t = next_id w in
          p_catch (tx_attempt drv t (isolationLevel opt dflt) fn) (tx_recover drv t) (tx_new w))"

subsection \<open>Step-by-step mode\<close>

definition beginTransaction ::
  "'d driver \<Rightarrow> config \<Rightarrow> string \<Rightarrow> string option \<Rightarrow> ('d, nat) promise" where
  "beginTransaction drv cfg dflt opt =
     p_then (connect drv cfg)
       (\<lambda>connection w.
          let t = next_id w;
              level = isolationLevel opt dflt
          in p_then (tx_call t (TxBegin t level) (tx_begin drv t level)) (\<lambda>_. resolve t)
               (w\<lparr>next_id := Suc t, rolledBack := (rolledBack w)(t \<mapsto> False)\<rparr>))"

definition commit :: "'d driver \<Rightarrow> nat \<Rightarrow> ('d, unit) promise" where
  "commit drv t =
     p_catch (tx_call t (TxCommit t) (tx_commit drv t))
       (\<lambda>err w.
          if rolledBack w t \<noteq> Some True
          then p_then (tx_call t (TxRollback t) (tx_rollback drv t)) (\<lambda>_. reject err) w
          else reject err w)"

definition rollback :: "'d driver \<Rightarrow> nat \<Rightarrow> ('d, unit) promise" where
  "rollback drv t =
     (\<lambda>w. if rolledBack w t = Some True then resolve () w
        else tx_call t (TxRollback t) (tx_rollback drv t) w)"

text \<open>
  What a client and the driver can do to a world, one step at a time: a connect, a
  query, the three operations of step-by-step mode, a close, and the driver emitting
  the \<^verbatim>\<open>'rollback'\<close> event on a transaction of its own accord. \<open>env\<close> holds what
  an instance does not change: the two built-ins, the driver and the instance's
  default isolation level.
\<close>

datatype step =
    DoConnect config
  | DoQuery config string "params option" "nat option"
  | DoBegin config "string option"
  | DoCommit nat
  | DoRollback nat
  | DoClose
  | Emitted nat

record 'd env =
  env_Number :: "string \<Rightarrow> nat option"
  env_newDate :: "jsval \<Rightarrow> jsdate"
  env_driver :: "'d driver"
  env_level :: string

fun step_world :: "'d env \<Rightarrow> step \<Rightarrow> 'd world \<Rightarrow> 'd world" where
  "step_world env (DoConnect cfg) w = snd (connect (env_driver env) cfg w)"
| "step_world env (DoQuery cfg statement params tx) w =
     snd (query (env_Number env) (env_newDate env) (env_driver env) cfg statement params tx w)"
| "step_world env (DoBegin cfg opt) w =
     snd (beginTransaction (env_driver env) cfg (env_level env) opt w)"
| "step_world env (DoCommit t) w = snd (commit (env_driver env) t w)"
| "step_world env (DoRollback t) w = snd (rollback (env_driver env) t w)"
| "step_world env DoClose w = snd (close (env_driver env) w)"
| "step_world env (Emitted t) w = on_rollback t w"

definition run :: "'d env \<Rightarrow> step list \<Rightarrow> 'd world \<Rightarrow> 'd world" where
  "run env steps w = foldl (\<lambda>w' s. step_world env s w') w steps"

text \<open>A new instance: nothing connected, no transaction begun.\<close>

definition initial :: "'d \<Rightarrow> 'd world" where
  "initial d =
     \<lparr>dstate = d, calls = [], connections = [], next_id = 0,
      rolledBack = Map.empty, rolledBack_var = Map.empty\<rparr>"

section \<open>Vocabulary of the specification\<close>

text \<open>The specification's words for the precision of an inferred decimal: the number of
  digits in the value's string form.\<close>

definition digit_count :: "string \<Rightarrow> nat" where
  "digit_count s = length (filter is_digit s)"


text \<open>
  The shape of a number's string form: a whole part (digits, a sign, or the letters of
  \<^verbatim>\<open>NaN\<close> and \<^verbatim>\<open>Infinity\<close>), then the digits after the decimal point if there are any,
  then the exponent if the form is scientific (\<^verbatim>\<open>1.5e-7\<close> is
  \<open>number_text ''1'' ''5'' ''-7''\<close>).
\<close>

definition number_text :: "string \<Rightarrow> string \<Rightarrow> string \<Rightarrow> string" where
  "number_text whole frac ex =
     whole @ (if frac = [] then [] else CHR ''.'' # frac)
           @ (if ex = [] then [] else CHR ''e'' # ex)"

text \<open>An exponent: digits, after a sign or without one.\<close>

fun exponent_text :: "string \<Rightarrow> bool" where
  "exponent_text [] = False"
| "exponent_text (c # ds) =
     (if c = CHR ''+'' \<or> c = CHR ''-'' then ds \<noteq> [] \<and> list_all is_digit ds
      else list_all is_digit (c # ds))"

text \<open>What \<^verbatim>\<open>fold\<close> leaves in a column: the first element in place of an array of more
  than one element that are all \<^verbatim>\<open>===\<close> to it, and any other cell as it is.\<close>

definition folded :: "cell \<Rightarrow> cell" where
  "folded c =
     (case c of
        Single x \<Rightarrow> Single x
      | Multi v \<Rightarrow>
          if length v > 1 \<and> list_all (\<lambda>el. strict_eq el (v ! 0)) v then Single (v ! 0)
          else Multi v)"

section \<open>Sample values\<close>

text \<open>A descriptor with every field absent, and \<^verbatim>\<open>new Date(0)\<close>.\<close>

definition no_fields :: descriptor where
  "no_fields =
     \<lparr>pvalue = JUndefined, ptype = None, maxLength = None, decimals = None,
      timezone = JUndefined\<rparr>"

definition epoch :: jsdate where
  "epoch = Date_valid ''1970-01-01T00:00:00.000Z''"

text \<open>
  A driver on which every call succeeds, returns no recordset and emits no event, with
  nothing to remember; a configuration; and a world with one pool registered for it.
\<close>

definition quiet_driver :: "unit driver" where
  "quiet_driver =
     \<lparr>pool_connect = (\<lambda>n d. (None, d)),
      pool_close = (\<lambda>n d. (None, d)),
      request_query = (\<lambda>q d. (Inr None, d)),
      ps_prepare = (\<lambda>q d. (None, d)),
      ps_execute = (\<lambda>i d. (Inr None, d)),
      ps_unprepare = (\<lambda>d. (None, d)),
      tx_begin = (\<lambda>t l d. ((None, False), d)),
      tx_commit = (\<lambda>t d. ((None, False), d)),
      tx_rollback = (\<lambda>t d. ((None, False), d))\<rparr>"

definition quiet_env :: "unit env" where
  "quiet_env =
     \<lparr>env_Number = Number_decimal, env_newDate = (\<lambda>x. epoch), env_driver = quiet_driver,
      env_level = ''READ_COMMITTED''\<rparr>"

definition sample_config :: config where
  "sample_config =
     \<lparr>server = ''localhost'', port = ''1433'', database = Some ''master'', user = Some ''sa'',
      password = Some ''secret''\<rparr>"

definition connected :: "unit world" where
  "connected =
     \<lparr>dstate = (), calls = [NewPool 0, PoolConnect 0],
      connections =
        [(''localhost1433mastersa'', \<lparr>entry_config = sample_config, entry_connection = 0\<rparr>)],
      next_id = 1, rolledBack = Map.empty, rolledBack_var = Map.empty\<rparr>"

section \<open>The invariant of a world\<close>

text \<open>
  The invariant of a world: the keys of the connection map are distinct, and no
  transaction that is yet to be constructed has an entry in the \<^verbatim>\<open>rolledBack\<close> WeakMap.
  A world \<open>w'\<close> advances \<open>w\<close> when it keeps the invariant and every flag that is true
  in \<open>w\<close>.
\<close>

definition sound :: "'d world \<Rightarrow> bool" where
  "sound w =
     (distinct (map fst (connections w)) \<and> (\<forall>t. next_id w \<le> t \<longrightarrow> rolledBack w t = None))"

definition advances :: "'d world \<Rightarrow> 'd world \<Rightarrow> bool" where
  "advances w w' =
     (sound w \<longrightarrow> sound w' \<and> (\<forall>t. rolledBack w t = Some True \<longrightarrow> rolledBack w' t = Some True))"

section \<open>Properties of the type inferencer\<close>

lemma match_at_other:
  "c \<noteq> CHR ''.'' \<Longrightarrow> c \<noteq> CHR ''e'' \<Longrightarrow> c \<noteq> CHR ''E'' \<Longrightarrow> match_at (c # r) = None"
  by (simp add: tail_match_def)

lemma regex_match_skip:
  "\<forall>c\<in>set whole. c \<noteq> CHR ''.'' \<and> c \<noteq> CHR ''e'' \<and> c \<noteq> CHR ''E'' \<Longrightarrow>
   regex_match (whole @ rest) = regex_match rest"
  by (induction whole) (simp_all add: match_at_other del: match_at.simps)

lemma e_not_digit: "\<not> is_digit (CHR ''e'')"
  by (simp add: is_digit_def)

lemma takeWhile_digits:
  "list_all is_digit frac \<Longrightarrow>
   takeWhile is_digit (frac @ (if ex = [] then [] else CHR ''e'' # ex)) = frac"
  by (induction frac) (simp_all add: e_not_digit)

lemma dropWhile_digits:
  "list_all is_digit frac \<Longrightarrow>
   dropWhile is_digit (frac @ (if ex = [] then [] else CHR ''e'' # ex)) =
     (if ex = [] then [] else CHR ''e'' # ex)"
  by (induction frac) (simp_all add: e_not_digit)

lemma exp_part_exponent:
  "exponent_text ex \<Longrightarrow> exp_part (CHR ''e'' # ex) = Some ex"
  by (cases ex) (auto simp: is_digit_def split: if_splits)

lemma regex_match_tail:
  assumes "list_all is_digit frac" and "ex = [] \<or> exponent_text ex"
  shows "regex_match ((if frac = [] then [] else CHR ''.'' # frac)
                       @ (if ex = [] then [] else CHR ''e'' # ex))
         = Some (if frac = [] then None else Some frac, if ex = [] then None else Some ex)"
proof (cases "frac = []")
  case True
  then show ?thesis
    using assms(2) exp_part_exponent [of ex]
    by (cases "ex = []") (simp_all add: tail_match_def del: exp_part.simps)
next
  case False
  have "regex_match (CHR ''.'' # frac @ (if ex = [] then [] else CHR ''e'' # ex))
      = Some (Some frac, if ex = [] then None else Some ex)"
    using False assms exp_part_exponent [of ex]
    by (auto simp add: takeWhile_digits dropWhile_digits tail_match_def
        simp del: exp_part.simps)
  with False show ?thesis by simp
qed

lemma decimalPlaces_number_text:
  assumes "\<forall>c\<in>set whole. c \<noteq> CHR ''.'' \<and> c \<noteq> CHR ''e'' \<and> c \<noteq> CHR ''E''"
    and "list_all is_digit frac"
    and "ex = [] \<or> exponent_text ex"
  shows "decimalPlaces (number_text whole frac ex) = max 0 (int (length frac) - to_int ex)"
  using regex_match_skip [OF assms(1)] regex_match_tail [OF assms(2,3)]
  by (simp add: decimalPlaces_def number_text_def)

lemma decimalPlaces_nonneg: "0 \<le> decimalPlaces s"
  by (simp add: decimalPlaces_def split: option.splits prod.splits)

text \<open>
  C2, as the code has it. A number given without a descriptor is declared as an exact
  decimal whose precision is the length of the value's string form, every character of
  it counted (sign, decimal point and exponent too), and whose scale is never negative.
  For a string form made of a whole part, the digits \<open>frac\<close> after the decimal point and
  an exponent \<open>ex\<close>, the scale is the number of digits after the point less the
  exponent, floored at zero.
\<close>

theorem C2_numeric_inference:
  assumes "\<forall>c\<in>set whole. c \<noteq> CHR ''.'' \<and> c \<noteq> CHR ''e'' \<and> c \<noteq> CHR ''E''"
    and "list_all is_digit frac"
    and "ex = [] \<or> exponent_text ex"
  shows "getType (JNum s) None = Decimal (Some (int (length s))) (Some (decimalPlaces s)) \<and>
         0 \<le> decimalPlaces s \<and>
         decimalPlaces (number_text whole frac ex) = max 0 (int (length frac) - to_int ex)"
  using decimalPlaces_number_text [OF assms] decimalPlaces_nonneg [of s] by simp

theorem C2_numeric_inference_witness:
  "getType (JNum ''0.99'') None = Decimal (Some 4) (Some 2) \<and>
   decimalPlaces ''1.5e-7'' = 8 \<and> decimalPlaces ''1e+21'' = 0"
  using C2_numeric_inference [of "''0''" "''99''" "[]" "''0.99''"]
    C2_numeric_inference [of "''1''" "''5''" "''-7''" "''1.5e-7''"]
    C2_numeric_inference [of "''1''" "[]" "''+21''" "''1e+21''"]
  by (simp add: number_text_def is_digit_def nat_of_digits_def digit_val_def)

text \<open>
  C2 as stated fails: the string form of 0.99 has three digits, and the precision
  inferred for it is 4.
\<close>

theorem C2_precision_counterexample:
  "digit_count ''0.99'' = 3 \<and>
   getType (JNum ''0.99'') None = Decimal (Some 4) (Some 2) \<and>
   getType (JNum ''0.99'') None \<noteq> Decimal (Some (int (digit_count ''0.99''))) (Some 2)"
  by (simp add: digit_count_def is_digit_def decimalPlaces_def tail_match_def)




text \<open>
  C10. A parameter that is \<^verbatim>\<open>null\<close> binds NULL and is declared with the default
  unbounded string type; in the loop over the parameters it stores \<open>JNull\<close> under its
  key and makes the one call \<open>PsInput key (NVarChar None)\<close>.
\<close>

theorem C10_null_parameter:
  "bindParam newDate (Raw JNull) = Inr (JNull, NVarChar None) \<and>
   bind_inputs newDate ((key, Raw JNull) # rest) input w =
     bind_inputs newDate rest (AList.update key JNull input)
       (w\<lparr>calls := calls w @ [PsInput key (NVarChar None)]\<rparr>)"
  by simp

section \<open>Properties of the parameter binder\<close>







text \<open>
  C4, as the code has it. A parameter that is \<^verbatim>\<open>undefined\<close> or \<^verbatim>\<open>null\<close>, an array
  element that is not there, and a descriptor whose \<open>value\<close> is absent, \<^verbatim>\<open>undefined\<close> or
  \<^verbatim>\<open>null\<close> all bind NULL. The number 0 and the empty string never bind NULL: given raw,
  or in a descriptor whose type is neither \<open>date\<close> nor \<open>datetime\<close>, they bind themselves;
  in a descriptor of type \<open>date\<close> or \<open>datetime\<close> they bind the Date made from them.
\<close>

theorem C4_null_and_falsy:
  "bindParam newDate (Raw JUndefined) = Inr (JNull, NVarChar None) \<and>
   bindParam newDate (Raw JNull) = Inr (JNull, NVarChar None) \<and>
   (length ps < i \<longrightarrow> element_at ps (Some i) = Raw JUndefined) \<and>
   (pvalue d = JUndefined \<or> pvalue d = JNull
      \<longrightarrow> (\<exists>t. bindParam newDate (Descriptor d) = Inr (JNull, t))) \<and>
   (v = JNum ''0'' \<or> v = JStr []
      \<longrightarrow> bindParam newDate (Raw v) = Inr (v, getType v None)) \<and>
   ((pvalue d = JNum ''0'' \<or> pvalue d = JStr []) \<and>
    ptype d \<noteq> Some ''date'' \<and> ptype d \<noteq> Some ''datetime''
      \<longrightarrow> bindParam newDate (Descriptor d) = Inr (pvalue d, getType (pvalue d) (Some d))) \<and>
   ((pvalue d = JNum ''0'' \<or> pvalue d = JStr []) \<and>
    (ptype d = Some ''date'' \<or> ptype d = Some ''datetime'')
      \<longrightarrow> (\<exists>t. bindParam newDate (Descriptor d) = Inr (JDate (newDate (pvalue d)), t)))"
  by (auto simp: element_at_def Let_def)

theorem C4_null_and_falsy_witness:
  "element_at [Raw (JStr ''Duck''), Raw (JNum ''5'')] (Some 3) = Raw JUndefined \<and>
   (\<exists>t. bindParam (\<lambda>x. epoch) (Descriptor no_fields) = Inr (JNull, t)) \<and>
   (\<exists>t. bindParam (\<lambda>x. epoch) (Descriptor (no_fields\<lparr>pvalue := JNull\<rparr>)) = Inr (JNull, t)) \<and>
   bindParam (\<lambda>x. epoch) (Raw (JNum ''0'')) = Inr (JNum ''0'', Decimal (Some 1) (Some 0)) \<and>
   bindParam (\<lambda>x. epoch) (Raw (JStr [])) = Inr (JStr [], NVarChar None) \<and>
   bindParam (\<lambda>x. epoch) (Descriptor (no_fields\<lparr>pvalue := JNum ''0''\<rparr>))
     = Inr (JNum ''0'', Decimal (Some 1) (Some 0)) \<and>
   bindParam (\<lambda>x. epoch) (Descriptor (no_fields\<lparr>pvalue := JStr []\<rparr>))
     = Inr (JStr [], NVarChar None) \<and>
   (\<exists>t. bindParam (\<lambda>x. epoch) (Descriptor (no_fields\<lparr>pvalue := JNum ''0'', ptype := Some ''date''\<rparr>))
     = Inr (JDate epoch, t))"
  using
    C4_null_and_falsy [of "\<lambda>x. epoch" "[Raw (JStr ''Duck''), Raw (JNum ''5'')]" 3 no_fields
      "JNum ''0''"]
    C4_null_and_falsy [of "\<lambda>x. epoch" "[]" 0 "no_fields\<lparr>pvalue := JNull\<rparr>" "JStr []"]
    C4_null_and_falsy [of "\<lambda>x. epoch" "[]" 0 "no_fields\<lparr>pvalue := JNum ''0''\<rparr>" "JStr []"]
    C4_null_and_falsy [of "\<lambda>x. epoch" "[]" 0 "no_fields\<lparr>pvalue := JStr []\<rparr>" "JStr []"]
    C4_null_and_falsy [of "\<lambda>x. epoch" "[]" 0
      "no_fields\<lparr>pvalue := JNum ''0'', ptype := Some ''date''\<rparr>" "JStr []"]
  by (simp add: no_fields_def decimalPlaces_def tail_match_def)

text \<open>
  C4 as stated fails for a descriptor of type \<open>date\<close>: the value 0 is present, and what
  is bound is not the number 0 but the Date made from it.
\<close>

theorem C4_date_descriptor_counterexample:
  "bindParam (\<lambda>x. epoch) (Descriptor (no_fields\<lparr>pvalue := JNum ''0'', ptype := Some ''date''\<rparr>))
     = Inr (JDate epoch, Date) \<and>
   JDate epoch \<noteq> JNum ''0''"
  by (simp add: no_fields_def typeOfDescriptor_def)

section \<open>Properties of the result normalizer\<close>

lemma folded_idem: "folded (folded c) = folded c"
  by (cases c) (simp_all add: folded_def)

lemma update_as_map:
  "distinct (map fst r) \<Longrightarrow> map_of r key = Some c \<Longrightarrow>
   AList.update key x r = map (\<lambda>(k, c'). (k, if k = key then x else c')) r"
proof (induction r)
  case Nil
  then show ?case by simp
next
  case (Cons a r)
  obtain k c' where a: "a = (k, c')" by (cases a)
  show ?case
  proof (cases "k = key")
    case True
    with Cons.prems a have "key \<notin> fst ` set r" by auto
    then have "map (\<lambda>(k, c'). (k, if k = key then x else c')) r = r"
      by (induction r) auto
    with True a show ?thesis by simp
  next
    case False
    with Cons a show ?thesis by simp
  qed
qed

lemma keys_map: "map (fst \<circ> (\<lambda>(k, c). (k, g k c))) r = map fst r"
  by (induction r) auto

lemma entry_unique:
  "distinct (map fst r) \<Longrightarrow> map_of r key = Some c \<Longrightarrow> (key, c') \<in> set r \<Longrightarrow> c' = c"
  by (simp add: map_of_eq_Some_iff)

lemma map_absent_key:
  "map_of r key = None \<Longrightarrow> map (\<lambda>(k, c). (k, if k = key then f c else c)) r = r"
  by (induction r) (auto split: if_splits)

lemma fold_key_as_map:
  assumes "distinct (map fst r)"
  shows "fold_key key r = map (\<lambda>(k, c). (k, if k = key then folded c else c)) r"
proof (cases "map_of r key")
  case None
  then show ?thesis by (simp add: fold_key_def map_absent_key)
next
  case (Some c)
  have pointwise: "map (\<lambda>(k, c'). (k, if k = key then folded c else c')) r
      = map (\<lambda>(k, c'). (k, if k = key then folded c' else c')) r"
    by (rule map_cong) (auto dest: entry_unique [OF assms Some])
  have "fold_key key r = map (\<lambda>(k, c'). (k, if k = key then folded c else c')) r"
  proof (cases "folded c = c")
    case True
    then have "fold_key key r = r"
      using Some by (cases c) (auto simp: fold_key_def folded_def Let_def split: if_splits)
    moreover have "map (\<lambda>(k, c'). (k, if k = key then folded c else c')) r = map id r"
      using True by (intro map_cong) (auto dest: entry_unique [OF assms Some])
    ultimately show ?thesis by simp
  next
    case False
    then have "fold_key key r = AList.update key (folded c) r"
      using Some by (cases c) (auto simp: fold_key_def folded_def Let_def split: if_splits)
    with update_as_map [OF assms Some] show ?thesis by simp
  qed
  with pointwise show ?thesis by simp
qed

lemma fold_keys_as_map:
  "distinct (map fst r) \<Longrightarrow>
   foldl (\<lambda>acc key. fold_key key acc) r ks =
     map (\<lambda>(k, c). (k, if k \<in> set ks then folded c else c)) r"
proof (induction ks arbitrary: r)
  case Nil
  then show ?case by simp
next
  case (Cons key ks)
  let ?r = "map (\<lambda>(k, c). (k, if k = key then folded c else c)) r"
  from Cons.prems have d: "distinct (map fst ?r)" by (simp add: keys_map)
  have "foldl (\<lambda>acc key. fold_key key acc) r (key # ks) =
        foldl (\<lambda>acc key. fold_key key acc) ?r ks"
    by (simp add: fold_key_as_map [OF Cons.prems])
  also have "\<dots> = map (\<lambda>(k, c). (k, if k \<in> set ks then folded c else c)) ?r"
    by (rule Cons.IH [OF d])
  also have "\<dots> = map (\<lambda>(k, c). (k, if k \<in> set (key # ks) then folded c else c)) r"
    by (induction r) (auto simp: folded_idem)
  finally show ?case .
qed

lemma fold_record_as_map:
  assumes "distinct (map fst r)"
  shows "fold_record r = map (\<lambda>(k, c). (k, folded c)) r"
proof -
  have "map (\<lambda>(k, c). (k, if k \<in> set (map fst r) then folded c else c)) r
      = map (\<lambda>(k, c). (k, folded c)) r"
    by (rule map_cong) (auto simp: rev_image_eqI)
  then show ?thesis
    by (simp add: fold_record_def fold_keys_as_map [OF assms])
qed

lemma map_of_folded:
  "map_of (map (\<lambda>(k, c). (k, folded c)) r) key = map_option folded (map_of r key)"
  by (induction r) auto

text \<open>
  C9. On a row (an object: its keys are distinct), folding a folded row changes
  nothing; a column holding an array of more than one element that are not all \<^verbatim>\<open>===\<close>
  to the first stays that array; one whose elements are all \<^verbatim>\<open>===\<close> to the first
  becomes that single value; and the row keeps its keys in their order.
\<close>

theorem C9_fold_idempotent:
  assumes "distinct (map fst r)"
  shows "fold_record (fold_record r) = fold_record r \<and>
         (map_of r key = Some (Multi v) \<and> length v > 1 \<and>
          \<not> list_all (\<lambda>el. strict_eq el (v ! 0)) v
            \<longrightarrow> map_of (fold_record r) key = Some (Multi v)) \<and>
         (map_of r key = Some (Multi v) \<and> length v > 1 \<and>
          list_all (\<lambda>el. strict_eq el (v ! 0)) v
            \<longrightarrow> map_of (fold_record r) key = Some (Single (v ! 0))) \<and>
         map fst (fold_record r) = map fst r"
proof -
  have r: "fold_record r = map (\<lambda>(k, c). (k, folded c)) r"
    by (rule fold_record_as_map [OF assms])
  have "distinct (map fst (fold_record r))"
    using assms by (simp add: r keys_map)
  then have "fold_record (fold_record r) = map (\<lambda>(k, c). (k, folded c)) (fold_record r)"
    by (rule fold_record_as_map)
  also have "\<dots> = fold_record r"
    unfolding r by (induction r) (auto simp: folded_idem)
  finally have idem: "fold_record (fold_record r) = fold_record r" .
  have look: "map_of (fold_record r) key = map_option folded (map_of r key)"
    by (simp add: r map_of_folded)
  have keep: "map_of r key = Some (Multi v) \<and> length v > 1 \<and>
          \<not> list_all (\<lambda>el. strict_eq el (v ! 0)) v
            \<longrightarrow> map_of (fold_record r) key = Some (Multi v)"
    by (simp add: look folded_def)
  have collapse: "map_of r key = Some (Multi v) \<and> length v > 1 \<and>
          list_all (\<lambda>el. strict_eq el (v ! 0)) v
            \<longrightarrow> map_of (fold_record r) key = Some (Single (v ! 0))"
    by (simp add: look folded_def)
  have keys: "map fst (fold_record r) = map fst r"
    by (simp add: r keys_map)
  from idem keep collapse keys show ?thesis by blast
qed

theorem C9_fold_idempotent_witness:
  "fold_record
     [(''id'', Multi [CNum ''1'', CNum ''1'']), (''name'', Multi [CStr ''a'', CStr ''b'']),
      (''price'', Single (CNum ''0.99''))]
   = [(''id'', Single (CNum ''1'')), (''name'', Multi [CStr ''a'', CStr ''b'']),
      (''price'', Single (CNum ''0.99''))] \<and>
   fold_record (fold_record
     [(''id'', Multi [CNum ''1'', CNum ''1'']), (''name'', Multi [CStr ''a'', CStr ''b'']),
      (''price'', Single (CNum ''0.99''))])
   = [(''id'', Single (CNum ''1'')), (''name'', Multi [CStr ''a'', CStr ''b'']),
      (''price'', Single (CNum ''0.99''))] \<and>
   map_of (fold_record
     [(''id'', Multi [CNum ''1'', CNum ''1'']), (''name'', Multi [CStr ''a'', CStr ''b'']),
      (''price'', Single (CNum ''0.99''))]) ''name'' = Some (Multi [CStr ''a'', CStr ''b''])"
proof -
  let ?r = "[(''id'', Multi [CNum ''1'', CNum ''1'']), (''name'', Multi [CStr ''a'', CStr ''b'']),
      (''price'', Single (CNum ''0.99''))]"
  have d: "distinct (map fst ?r)" by simp
  have v: "fold_record ?r = [(''id'', Single (CNum ''1'')), (''name'', Multi [CStr ''a'', CStr ''b'']),
      (''price'', Single (CNum ''0.99''))]"
    by (simp add: fold_record_def fold_key_def)
  show ?thesis
    using C9_fold_idempotent [OF d, of "''name''" "[CStr ''a'', CStr ''b'']"]
      C9_fold_idempotent [OF d, of "''id''" "[CNum ''1'', CNum ''1'']"] v
    by simp
qed

section \<open>Properties of promises and driver calls\<close>

lemma p_then_resolved: "p w = (Inr x, w') \<Longrightarrow> p_then p f w = f x w'"
  by (simp add: p_then_def)

lemma p_then_rejected: "p w = (Inl e, w') \<Longrightarrow> p_then p f w = (Inl e, w')"
  by (simp add: p_then_def)

lemma p_catch_resolved: "p w = (Inr x, w') \<Longrightarrow> p_catch p h w = (Inr x, w')"
  by (simp add: p_catch_def)

lemma p_catch_rejected: "p w = (Inl e, w') \<Longrightarrow> p_catch p h w = h e w'"
  by (simp add: p_catch_def)

lemma driver_call_run:
  "op (dstate w) = (r, d') \<Longrightarrow>
   driver_call c op w =
     ((case r of None \<Rightarrow> Inr () | Some e \<Rightarrow> Inl e), w\<lparr>dstate := d', calls := calls w @ [c]\<rparr>)"
  by (simp add: driver_call_def)

lemma driver_fetch_run:
  "op (dstate w) = (r, d') \<Longrightarrow>
   driver_fetch c op w = (r, w\<lparr>dstate := d', calls := calls w @ [c]\<rparr>)"
  by (simp add: driver_fetch_def)

section \<open>Properties of \<^verbatim>\<open>query\<close>\<close>

text \<open>The last stage of \<^verbatim>\<open>query\<close>, outcome by outcome.\<close>

lemma execute_unprepare_released:
  assumes "ps_execute drv input (dstate w) = (outcome, d1)"
    and "ps_unprepare drv d1 = (None, d2)"
  shows "execute_unprepare drv input w =
           ((case outcome of Inl e \<Rightarrow> Inl e | Inr recordset \<Rightarrow> Inr (fold_recordset recordset)),
            w\<lparr>dstate := d2, calls := calls w @ [PsExecute input, PsUnprepare]\<rparr>)"
proof -
  let ?w1 = "w\<lparr>dstate := d1, calls := calls w @ [PsExecute input]\<rparr>"
  have ex: "driver_fetch (PsExecute input) (ps_execute drv input) w = (outcome, ?w1)"
    using assms(1) by (rule driver_fetch_run)
  have un: "driver_call PsUnprepare (ps_unprepare drv) ?w1 =
              (Inr (), w\<lparr>dstate := d2, calls := calls w @ [PsExecute input, PsUnprepare]\<rparr>)"
    using assms(2) by (simp add: driver_call_def)
  show ?thesis
  proof (cases outcome)
    case (Inl e)
    with ex un show ?thesis
      by (simp add: execute_unprepare_def p_catch_def p_then_def reject_def)
  next
    case (Inr recordset)
    with ex un show ?thesis
      by (simp add: execute_unprepare_def p_catch_def p_then_def resolve_def)
  qed
qed

lemma execute_unprepare_calls:
  "\<exists>more. calls (snd (execute_unprepare drv input w)) =
            calls w @ [PsExecute input, PsUnprepare] @ more"
  by (auto simp: execute_unprepare_def p_catch_def p_then_def driver_fetch_def
      driver_call_def resolve_def reject_def split: prod.splits sum.splits option.splits)

text \<open>When the release itself is rejected, it is its error that \<^verbatim>\<open>query\<close> rejects with.\<close>

lemma execute_unprepare_not_released:
  assumes "ps_execute drv input (dstate w) = (Inl e, d1)"
    and "ps_unprepare drv d1 = (Some e', d2)"
  shows "fst (execute_unprepare drv input w) = Inl e'"
  using assms
  by (simp add: execute_unprepare_def p_catch_def p_then_def driver_fetch_def driver_call_def)

lemma query_reaches_execute:
  assumes "(case tx of Some t \<Rightarrow> resolve t | None \<Rightarrow> connect drv cfg) w = (Inr c, w1)"
    and "convertParams Number statement ps = Inr (statement', params')"
    and "bind_inputs newDate params' [] w1 = (Inr input, w2)"
    and "ps_prepare drv statement' (dstate w2) = (None, d3)"
  shows "query Number newDate drv cfg statement (Some ps) tx w =
           execute_unprepare drv input
             (w2\<lparr>dstate := d3, calls := calls w2 @ [PsPrepare statement']\<rparr>)"
  using assms
  by (simp add: query_def p_then_def resolve_def driver_call_def)

text \<open>
  C8, as the code has it. Take a call of \<^verbatim>\<open>query\<close> with parameters that gets as far as
  executing the prepared statement: it is connected, the parameters are bound and
  \<^verbatim>\<open>prepare\<close> has resolved. Whatever the outcome of \<^verbatim>\<open>execute\<close>, the next call on the
  driver is \<^verbatim>\<open>unprepare\<close>. Once that release has resolved, the call settles: rejected
  with the very error of \<^verbatim>\<open>execute\<close> if it failed, resolved with the folded recordset
  if not. When \<^verbatim>\<open>execute\<close> has failed and the release is rejected too, the call is
  rejected with the error of the release.
\<close>

theorem C8_unprepare_on_both_paths:
  assumes "(case tx of Some t \<Rightarrow> resolve t | None \<Rightarrow> connect drv cfg) w = (Inr c, w1)"
    and "convertParams Number statement ps = Inr (statement', params')"
    and "bind_inputs newDate params' [] w1 = (Inr input, w2)"
    and "ps_prepare drv statement' (dstate w2) = (None, d3)"
    and "ps_execute drv input d3 = (outcome, d4)"
    and "ps_unprepare drv d4 = (released, d5)"
  shows "(\<exists>more. calls (snd (query Number newDate drv cfg statement (Some ps) tx w)) =
            calls w2 @ [PsPrepare statement', PsExecute input, PsUnprepare] @ more) \<and>
         (released = None \<longrightarrow>
            query Number newDate drv cfg statement (Some ps) tx w =
              ((case outcome of
                  Inl e \<Rightarrow> Inl e
                | Inr recordset \<Rightarrow> Inr (fold_recordset recordset)),
               w2\<lparr>dstate := d5,
                  calls := calls w2 @ [PsPrepare statement', PsExecute input, PsUnprepare]\<rparr>)) \<and>
         (outcome = Inl e \<and> released = Some e' \<longrightarrow>
            fst (query Number newDate drv cfg statement (Some ps) tx w) = Inl e')"
proof -
  let ?w3 = "w2\<lparr>dstate := d3, calls := calls w2 @ [PsPrepare statement']\<rparr>"
  have q: "query Number newDate drv cfg statement (Some ps) tx w = execute_unprepare drv input ?w3"
    using assms(1-4) by (rule query_reaches_execute)
  have "\<exists>more. calls (snd (execute_unprepare drv input ?w3)) =
          calls ?w3 @ [PsExecute input, PsUnprepare] @ more"
    by (rule execute_unprepare_calls)
  then have log: "\<exists>more. calls (snd (query Number newDate drv cfg statement (Some ps) tx w)) =
            calls w2 @ [PsPrepare statement', PsExecute input, PsUnprepare] @ more"
    by (simp add: q)
  have settled: "released = None \<longrightarrow>
          execute_unprepare drv input ?w3 =
            ((case outcome of Inl e \<Rightarrow> Inl e | Inr recordset \<Rightarrow> Inr (fold_recordset recordset)),
             ?w3\<lparr>dstate := d5, calls := calls ?w3 @ [PsExecute input, PsUnprepare]\<rparr>)"
    using assms(5,6) execute_unprepare_released [of drv input ?w3 outcome d4 d5] by simp
  have lost: "outcome = Inl e \<and> released = Some e' \<longrightarrow>
          fst (execute_unprepare drv input ?w3) = Inl e'"
    using assms(5,6) execute_unprepare_not_released [of drv input ?w3 e d4 e' d5] by simp
  from log settled lost show ?thesis by (simp add: q)
qed

theorem C8_unprepare_on_both_paths_witness:
  "fst (query Number_decimal (\<lambda>x. epoch)
          (quiet_driver\<lparr>ps_execute := (\<lambda>i d. (Inl (DriverError ''deadlock''), d))\<rparr>)
          sample_config ''SELECT $1'' (Some (Array [Raw (JNum ''3'')])) None connected)
     = Inl (DriverError ''deadlock'') \<and>
   calls (snd (query Number_decimal (\<lambda>x. epoch)
          (quiet_driver\<lparr>ps_execute := (\<lambda>i d. (Inl (DriverError ''deadlock''), d))\<rparr>)
          sample_config ''SELECT $1'' (Some (Array [Raw (JNum ''3'')])) None connected))
     = [NewPool 0, PoolConnect 0, PsInput ''p1'' (Decimal (Some 1) (Some 0)),
        PsPrepare ''SELECT @p1'', PsExecute [(''p1'', JNum ''3'')], PsUnprepare] \<and>
   fst (query Number_decimal (\<lambda>x. epoch)
          (quiet_driver\<lparr>ps_execute := (\<lambda>i d. (Inl (DriverError ''deadlock''), d)),
             ps_unprepare := (\<lambda>d. (Some (DriverError ''connection lost''), d))\<rparr>)
          sample_config ''SELECT $1'' (Some (Array [Raw (JNum ''3'')])) None connected)
     = Inl (DriverError ''connection lost'')"
proof -
  let ?drv = "quiet_driver\<lparr>ps_execute := (\<lambda>i d. (Inl (DriverError ''deadlock''), d))\<rparr>"
  let ?drv' = "quiet_driver\<lparr>ps_execute := (\<lambda>i d. (Inl (DriverError ''deadlock''), d)),
             ps_unprepare := (\<lambda>d. (Some (DriverError ''connection lost''), d))\<rparr>"
  let ?w2 = "connected\<lparr>calls := calls connected @ [PsInput ''p1'' (Decimal (Some 1) (Some 0))]\<rparr>"
  have h1: "(case None of Some t \<Rightarrow> resolve t | None \<Rightarrow> connect drv sample_config) connected
              = (Inr 0, connected)" for drv :: "unit driver"
    by (simp add: connect_def getConnectionKey_def sample_config_def connected_def template_def
        resolve_def)
  have h2: "convertParams Number_decimal ''SELECT $1'' (Array [Raw (JNum ''3'')])
              = Inr (''SELECT @p1'', [(''p1'', Raw (JNum ''3''))])"
    by (simp add: convertParams_def is_word_def element_at_def Number_decimal_def is_digit_def
        nat_of_digits_def digit_val_def Let_def)
  have h3: "bind_inputs (\<lambda>x. epoch) [(''p1'', Raw (JNum ''3''))] [] connected
              = (Inr [(''p1'', JNum ''3'')], ?w2)"
    by (simp add: resolve_def decimalPlaces_def tail_match_def)
  have h4: "ps_prepare ?drv ''SELECT @p1'' (dstate ?w2) = (None, ())"
    "ps_prepare ?drv' ''SELECT @p1'' (dstate ?w2) = (None, ())"
    by (simp_all add: quiet_driver_def)
  have h5: "ps_execute ?drv [(''p1'', JNum ''3'')] () = (Inl (DriverError ''deadlock''), ())"
    "ps_execute ?drv' [(''p1'', JNum ''3'')] () = (Inl (DriverError ''deadlock''), ())"
    by simp_all
  have h6: "ps_unprepare ?drv () = (None, ())"
    by (simp add: quiet_driver_def)
  have h6': "ps_unprepare ?drv' () = (Some (DriverError ''connection lost''), ())"
    by simp
  show ?thesis
    using C8_unprepare_on_both_paths [OF h1 h2 h3 h4(1) h5(1) h6,
        of "DriverError ''deadlock''" "DriverError ''connection lost''"]
      C8_unprepare_on_both_paths [OF h1 h2 h3 h4(2) h5(2) h6',
        of "DriverError ''deadlock''" "DriverError ''connection lost''"]
    by (simp add: connected_def)
qed

text \<open>
  C8 as stated fails when the release fails too: \<^verbatim>\<open>execute\<close> is rejected with one error,
  \<^verbatim>\<open>unprepare\<close> with another, and the caller receives the error of \<^verbatim>\<open>unprepare\<close>.
\<close>

theorem C8_release_failure_counterexample:
  "fst (query Number_decimal (\<lambda>x. epoch)
          (quiet_driver\<lparr>ps_execute := (\<lambda>i d. (Inl (DriverError ''deadlock''), d)),
             ps_unprepare := (\<lambda>d. (Some (DriverError ''connection lost''), d))\<rparr>)
          sample_config ''SELECT $1'' (Some (Array [Raw (JNum ''3'')])) None connected)
     = Inl (DriverError ''connection lost'') \<and>
   DriverError ''connection lost'' \<noteq> DriverError ''deadlock''"
  by (simp add: query_def connect_def getConnectionKey_def sample_config_def connected_def
      template_def resolve_def reject_def p_then_def p_catch_def convertParams_def is_word_def
      element_at_def Number_decimal_def is_digit_def nat_of_digits_def digit_val_def Let_def
      decimalPlaces_def tail_match_def driver_call_def driver_fetch_def execute_unprepare_def
      quiet_driver_def)

section \<open>Properties of the transaction manager\<close>

lemma tx_call_run:
  "op (dstate w) = ((r, emitted), d') \<Longrightarrow>
   tx_call t c op w =
     ((case r of None \<Rightarrow> Inr () | Some e \<Rightarrow> Inl e),
      (if emitted then on_rollback t (w\<lparr>dstate := d', calls := calls w @ [c]\<rparr>)
       else w\<lparr>dstate := d', calls := calls w @ [c]\<rparr>))"
  by (simp add: tx_call_def)

lemma on_rollback_keeps [simp]:
  "calls (on_rollback t w) = calls w"
  "dstate (on_rollback t w) = dstate w"
  "connections (on_rollback t w) = connections w"
  "next_id (on_rollback t w) = next_id w"
  by (simp_all add: on_rollback_def)

lemma tx_attempt_failed:
  assumes "tx_call t (TxBegin t level) (tx_begin drv t level) w1 = (Inr (), wb)"
    and "fn t wb = (Inl err, w2) \<or>
         (\<exists>res wc. fn t wb = (Inr res, wc) \<and>
            tx_call t (TxCommit t) (tx_commit drv t) wc = (Inl err, w2))"
  shows "tx_attempt drv t level fn w1 = (Inl err, w2)"
  using assms by (auto simp: tx_attempt_def p_then_def)

lemma tx_recover_skips:
  "rolledBack_var w t = Some True \<Longrightarrow> tx_recover drv t err w = (Inl err, w)"
  by (simp add: tx_recover_def reject_def)

lemma tx_recover_rolls_back:
  assumes "rolledBack_var w t \<noteq> Some True"
    and "tx_rollback drv t (dstate w) = ((r, emitted), d')"
  shows "fst (tx_recover drv t err w) = Inl (case r of None \<Rightarrow> err | Some e' \<Rightarrow> e') \<and>
         calls (snd (tx_recover drv t err w)) = calls w @ [TxRollback t]"
  using assms
  by (cases r) (simp_all add: tx_recover_def p_then_def tx_call_def reject_def Let_def)

text \<open>
  C5, as the code has it. In scoped mode, let the transaction have begun and let the
  work, or after it the commit, fail with \<open>err\<close>. If by then the \<^verbatim>\<open>rolledBack\<close> flag is
  set, no rollback is issued and the call rejects with \<open>err\<close>. If it is not set, exactly
  one rollback is issued: when it resolves the call rejects with \<open>err\<close>, so a rollback
  that succeeds does not hide the original failure; when the rollback itself fails,
  the call rejects with the error of the rollback.
\<close>

theorem C5_scoped_failure:
  assumes "connect drv cfg w = (Inr c, w0)"
    and "tx_call (next_id w0) (TxBegin (next_id w0) (isolationLevel opt dflt))
           (tx_begin drv (next_id w0) (isolationLevel opt dflt)) (tx_new w0) = (Inr (), wb)"
    and "fn (next_id w0) wb = (Inl err, w2) \<or>
         (\<exists>res wc. fn (next_id w0) wb = (Inr res, wc) \<and>
            tx_call (next_id w0) (TxCommit (next_id w0)) (tx_commit drv (next_id w0)) wc
              = (Inl err, w2))"
    and "tx_rollback drv (next_id w0) (dstate w2) = ((r, emitted), d3)"
  shows "(rolledBack_var w2 (next_id w0) = Some True \<longrightarrow>
            transaction drv cfg dflt fn opt w = (Inl err, w2)) \<and>
         (rolledBack_var w2 (next_id w0) \<noteq> Some True \<longrightarrow>
            fst (transaction drv cfg dflt fn opt w)
              = Inl (case r of None \<Rightarrow> err | Some e' \<Rightarrow> e') \<and>
            calls (snd (transaction drv cfg dflt fn opt w))
              = calls w2 @ [TxRollback (next_id w0)])"
proof -
  let ?t = "next_id w0"
  have "tx_attempt drv ?t (isolationLevel opt dflt) fn (tx_new w0) = (Inl err, w2)"
    using assms(2,3) by (rule tx_attempt_failed)
  then have run: "transaction drv cfg dflt fn opt w = tx_recover drv ?t err w2"
    using assms(1) by (simp add: transaction_def p_then_def p_catch_def)
  show ?thesis
    using tx_recover_skips [of w2 ?t drv err]
      tx_recover_rolls_back [OF _ assms(4), of err]
    by (auto simp: run)
qed

theorem C5_scoped_failure_witness:
  "transaction quiet_driver sample_config ''READ_COMMITTED''
     (\<lambda>t w. (Inl (DriverError ''deadlock''), on_rollback t w)) None connected
     = (Inl (DriverError ''deadlock'') :: error + unit,
        connected\<lparr>calls := calls connected @ [TxBegin 1 ''READ_COMMITTED''],
                  next_id := 2, rolledBack_var := [1 \<mapsto> True]\<rparr>) \<and>
   fst (transaction quiet_driver sample_config ''READ_COMMITTED''
     (\<lambda>t. reject (DriverError ''work failed'')) None connected)
     = (Inl (DriverError ''work failed'') :: error + unit) \<and>
   calls (snd (transaction quiet_driver sample_config ''READ_COMMITTED''
     (\<lambda>t. reject (DriverError ''work failed'') :: (unit, unit) promise) None connected))
     = [NewPool 0, PoolConnect 0, TxBegin 1 ''READ_COMMITTED'', TxRollback 1]"
proof -
  let ?wb = "connected\<lparr>calls := calls connected @ [TxBegin 1 ''READ_COMMITTED''],
                  next_id := 2, rolledBack_var := [1 \<mapsto> False]\<rparr>"
  let ?wd = "connected\<lparr>calls := calls connected @ [TxBegin 1 ''READ_COMMITTED''],
                  next_id := 2, rolledBack_var := [1 \<mapsto> True]\<rparr>"
  have h1: "connect quiet_driver sample_config connected = (Inr 0, connected)"
    by (simp add: connect_def getConnectionKey_def sample_config_def connected_def template_def
        resolve_def)
  have n: "next_id connected = 1"
    by (simp add: connected_def)
  have h2: "tx_call (next_id connected)
              (TxBegin (next_id connected) (isolationLevel None ''READ_COMMITTED''))
              (tx_begin quiet_driver (next_id connected) (isolationLevel None ''READ_COMMITTED''))
              (tx_new connected) = (Inr (), ?wb)"
    by (simp add: n tx_call_def quiet_driver_def tx_new_def isolationLevel_def connected_def)
  have h3: "(\<lambda>t w. (Inl (DriverError ''deadlock'') :: error + unit, on_rollback t w))
              (next_id connected) ?wb = (Inl (DriverError ''deadlock''), ?wd) \<or>
            (\<exists>res wc. (\<lambda>t w. (Inl (DriverError ''deadlock''), on_rollback t w))
               (next_id connected) ?wb = (Inr res, wc) \<and>
               tx_call (next_id connected) (TxCommit (next_id connected))
                 (tx_commit quiet_driver (next_id connected)) wc
               = (Inl (DriverError ''deadlock''), ?wd))"
    by (simp add: n on_rollback_def connected_def)
  have h3': "(\<lambda>t. reject (DriverError ''work failed'') :: (unit, unit) promise)
              (next_id connected) ?wb = (Inl (DriverError ''work failed''), ?wb) \<or>
            (\<exists>res wc. (\<lambda>t. reject (DriverError ''work failed'') :: (unit, unit) promise)
               (next_id connected) ?wb = (Inr res, wc) \<and>
               tx_call (next_id connected) (TxCommit (next_id connected))
                 (tx_commit quiet_driver (next_id connected)) wc
               = (Inl (DriverError ''work failed''), ?wb))"
    by (simp add: reject_def)
  have h4: "tx_rollback quiet_driver (next_id connected) (dstate ?wd) = ((None, False), ())"
    by (simp add: quiet_driver_def)
  have h4': "tx_rollback quiet_driver (next_id connected) (dstate ?wb) = ((None, False), ())"
    by (simp add: quiet_driver_def)
  show ?thesis
    using
      C5_scoped_failure
        [where fn = "\<lambda>t w. (Inl (DriverError ''deadlock'') :: error + unit, on_rollback t w)",
         OF h1 h2 h3 h4]
      C5_scoped_failure
        [where fn = "\<lambda>t. reject (DriverError ''work failed'') :: (unit, unit) promise",
         OF h1 h2 h3' h4']
    by (simp add: n connected_def)
qed

text \<open>
  C5 as stated fails when the rollback fails: the work fails with one error, the
  rollback with another, and the caller receives the error of the rollback.
\<close>

theorem C5_rollback_failure_counterexample:
  "fst (transaction
          (quiet_driver\<lparr>tx_rollback := (\<lambda>t d. ((Some (DriverError ''rollback failed''), False), d))\<rparr>)
          sample_config ''READ_COMMITTED''
          (\<lambda>t. reject (DriverError ''work failed'') :: (unit, unit) promise) None connected)
     = Inl (DriverError ''rollback failed'') \<and>
   DriverError ''rollback failed'' \<noteq> DriverError ''work failed''"
  by (simp add: transaction_def connect_def getConnectionKey_def sample_config_def
      connected_def template_def resolve_def reject_def p_then_def p_catch_def tx_attempt_def
      tx_recover_def tx_call_def tx_new_def quiet_driver_def isolationLevel_def)

section \<open>Invariants of the world\<close>

lemma advances_refl: "advances w w"
  by (simp add: advances_def)

lemma advances_trans: "advances a b \<Longrightarrow> advances b c \<Longrightarrow> advances a c"
  by (auto simp: advances_def)

lemma advances_then:
  assumes "\<And>w. advances w (snd (p w))" and "\<And>x w. advances w (snd (f x w))"
  shows "advances w (snd (p_then p f w))"
proof (cases "p w")
  case (Pair r w')
  then have step: "advances w w'" using assms(1) [of w] by simp
  show ?thesis
  proof (cases r)
    case (Inl e)
    with Pair step show ?thesis by (simp add: p_then_def)
  next
    case (Inr x)
    with Pair have "p_then p f w = f x w'" by (simp add: p_then_def)
    with step assms(2) [of w' x] show ?thesis by (auto intro: advances_trans)
  qed
qed

lemma advances_catch:
  assumes "\<And>w. advances w (snd (p w))" and "\<And>e w. advances w (snd (h e w))"
  shows "advances w (snd (p_catch p h w))"
proof (cases "p w")
  case (Pair r w')
  then have step: "advances w w'" using assms(1) [of w] by simp
  show ?thesis
  proof (cases r)
    case (Inr x)
    with Pair step show ?thesis by (simp add: p_catch_def)
  next
    case (Inl e)
    with Pair have "p_catch p h w = h e w'" by (simp add: p_catch_def)
    with step assms(2) [of w' e] show ?thesis by (auto intro: advances_trans)
  qed
qed

lemma advances_resolve: "advances w (snd (resolve x w))"
  by (simp add: resolve_def advances_refl)

lemma advances_reject: "advances w (snd (reject e w))"
  by (simp add: reject_def advances_refl)

lemma advances_driver_call: "advances w (snd (driver_call c op w))"
  by (simp add: driver_call_def advances_def sound_def split: prod.splits)

lemma advances_on_rollback: "advances w (on_rollback t w)"
  by (auto simp: on_rollback_def advances_def sound_def split: option.splits)

lemma advances_tx_call: "advances w (snd (tx_call t c op w))"
proof -
  obtain r emitted d' where run: "op (dstate w) = ((r, emitted), d')"
    by (metis surj_pair)
  let ?w = "w\<lparr>dstate := d', calls := calls w @ [c]\<rparr>"
  have a: "advances w ?w" by (simp add: advances_def sound_def)
  have "snd (tx_call t c op w) = (if emitted then on_rollback t ?w else ?w)"
    using run by (simp add: tx_call_def Let_def)
  with a advances_on_rollback [of ?w t] show ?thesis
    by (auto intro: advances_trans)
qed

lemma advances_open_pool: "advances w (snd (open_pool drv cfg w))"
proof -
  let ?w = "w\<lparr>next_id := Suc (next_id w), calls := calls w @ [NewPool (next_id w)]\<rparr>"
  have a: "advances w ?w" by (simp add: advances_def sound_def)
  have b: "\<And>x v. advances v (snd ((\<lambda>_ w'. (Inr (next_id w),
              w'\<lparr>connections := AList.update (getConnectionKey cfg)
                 \<lparr>entry_config = cfg, entry_connection = next_id w\<rparr> (connections w')\<rparr>)) x v))"
    by (simp add: advances_def sound_def distinct_update)
  have "advances ?w (snd (p_then (driver_call (PoolConnect (next_id w)) (pool_connect drv (next_id w)))
          (\<lambda>_ w'. (Inr (next_id w),
              w'\<lparr>connections := AList.update (getConnectionKey cfg)
                 \<lparr>entry_config = cfg, entry_connection = next_id w\<rparr> (connections w')\<rparr>)) ?w))"
    by (rule advances_then [OF advances_driver_call b])
  with a show ?thesis
    by (auto simp: open_pool_def Let_def intro: advances_trans)
qed

lemma advances_connect: "advances w (snd (connect drv cfg w))"
proof (cases "map_of (connections w) (getConnectionKey cfg)")
  case None
  then show ?thesis by (simp add: connect_def advances_open_pool)
next
  case (Some e)
  show ?thesis
  proof (cases "password cfg = password (entry_config e)")
    case True
    with Some show ?thesis by (simp add: connect_def resolve_def advances_refl)
  next
    case False
    obtain r w' where c: "driver_call (PoolClose (entry_connection e))
        (pool_close drv (entry_connection e)) w = (r, w')"
      by (metis surj_pair)
    then have "advances w w'"
      using advances_driver_call [of w "PoolClose (entry_connection e)"
          "pool_close drv (entry_connection e)"] by simp
    then have "advances w (snd (open_pool drv cfg w'))"
      using advances_open_pool [of w' drv cfg] by (rule advances_trans)
    with Some False c show ?thesis by (simp add: connect_def)
  qed
qed

lemma advances_close_each: "advances w (snd (close_each drv ns w))"
proof (induction ns arbitrary: w)
  case Nil
  then show ?case by (simp add: advances_resolve)
next
  case (Cons n ns)
  show ?case
    using advances_then [of "driver_call (PoolClose n) (pool_close drv n)"
        "\<lambda>_. close_each drv ns" w]
    by (simp add: advances_driver_call Cons.IH)
qed

lemma advances_close: "advances w (snd (close drv w))"
proof -
  have "advances w (w\<lparr>connections := []\<rparr>)"
    by (simp add: advances_def sound_def)
  then show ?thesis
    unfolding close_def by (rule advances_trans) (rule advances_close_each)
qed

lemma advances_beginTransaction: "advances w (snd (beginTransaction drv cfg dflt opt w))"
proof -
  have new: "\<And>v. advances v (v\<lparr>next_id := Suc (next_id v),
                 rolledBack := (rolledBack v)(next_id v \<mapsto> False)\<rparr>)"
    by (auto simp: advances_def sound_def)
  have body: "\<And>c v. advances v (snd ((\<lambda>connection w.
          let t = next_id w; level = isolationLevel opt dflt
          in p_then (tx_call t (TxBegin t level) (tx_begin drv t level)) (\<lambda>_. resolve t)
               (w\<lparr>next_id := Suc t, rolledBack := (rolledBack w)(t \<mapsto> False)\<rparr>)) c v))"
    unfolding Let_def
    by (rule advances_trans [OF new]) (rule advances_then [OF advances_tx_call advances_resolve])
  show ?thesis
    unfolding beginTransaction_def
    by (rule advances_then [OF advances_connect body])
qed

lemma advances_rollback_handler:
  "advances w (snd ((if b then p_then (tx_call t c op) (\<lambda>_. reject err) w else reject err w)))"
  by (simp add: advances_then [OF advances_tx_call advances_reject] advances_reject)

lemma advances_commit: "advances w (snd (commit drv t w))"
  unfolding commit_def
  by (rule advances_catch [OF advances_tx_call]) (rule advances_rollback_handler)

lemma advances_rollback: "advances w (snd (rollback drv t w))"
  by (simp add: rollback_def advances_resolve advances_tx_call)

lemma advances_driver_fetch: "advances w (snd (driver_fetch c op w))"
  by (simp add: driver_fetch_def advances_def sound_def split: prod.splits)

lemma advances_bind_inputs: "advances w (snd (bind_inputs newDate kps input w))"
proof (induction kps arbitrary: input w)
  case Nil
  then show ?case by (simp add: advances_resolve)
next
  case (Cons kp kps)
  obtain key p where kp: "kp = (key, p)" by (cases kp)
  show ?case
  proof (cases "bindParam newDate p")
    case (Inl e)
    with kp show ?thesis by (simp add: advances_reject)
  next
    case (Inr vt)
    obtain v t where vt: "vt = (v, t)" by (cases vt)
    let ?w = "w\<lparr>calls := calls w @ [PsInput key t]\<rparr>"
    have "advances w ?w" by (simp add: advances_def sound_def)
    then have "advances w (snd (bind_inputs newDate kps (AList.update key v input) ?w))"
      using Cons.IH by (rule advances_trans)
    with kp Inr vt show ?thesis by simp
  qed
qed

lemma advances_execute_unprepare: "advances w (snd (execute_unprepare drv input w))"
  unfolding execute_unprepare_def
  by (intro advances_catch advances_then advances_driver_fetch advances_driver_call
      advances_resolve advances_reject)

lemma advances_query:
  "advances w (snd (query Number newDate drv cfg statement params tx w))"
proof -
  have connecting:
    "\<And>v. advances v (snd ((case tx of Some t \<Rightarrow> resolve t | None \<Rightarrow> connect drv cfg) v))"
    by (cases tx) (simp_all add: advances_resolve advances_connect)
  have binding: "\<And>ps c v. advances v (snd ((case convertParams Number statement ps of
          Inl e \<Rightarrow> reject e
        | Inr (statement', params') \<Rightarrow>
            p_then (bind_inputs newDate params' []) (\<lambda>input. resolve (statement', input))) v))"
    by (simp add: advances_reject advances_then advances_bind_inputs advances_resolve
        split: sum.splits prod.splits)
  have preparing: "\<And>x v. advances v (snd ((case x of (statement', input) \<Rightarrow>
          p_then (driver_call (PsPrepare statement') (ps_prepare drv statement'))
            (\<lambda>_. resolve input)) v))"
    by (simp add: advances_then advances_driver_call advances_resolve split: prod.splits)
  show ?thesis
  proof (cases params)
    case None
    then show ?thesis
      unfolding query_def Let_def
      by (simp add: advances_then connecting advances_driver_fetch advances_resolve)
  next
    case (Some ps)
    then show ?thesis
      unfolding query_def Let_def
      by (simp add: advances_then connecting binding preparing advances_execute_unprepare)
  qed
qed

lemma advances_step: "advances w (step_world env s w)"
  by (cases s)
    (simp_all add: advances_connect advances_query advances_beginTransaction advances_commit
      advances_rollback advances_close advances_on_rollback)

lemma advances_run: "advances w (run env steps w)"
proof (induction steps arbitrary: w)
  case Nil
  then show ?case by (simp add: run_def advances_refl)
next
  case (Cons s steps)
  have "advances (step_world env s w) (run env steps (step_world env s w))"
    by (rule Cons.IH)
  with advances_step [of w env s] show ?case
    by (simp add: run_def advances_trans)
qed

lemma sound_initial: "sound (initial d)"
  by (simp add: sound_def initial_def)

lemma sound_run: "sound (run env steps (initial d))"
  using advances_run [of "initial d" env steps] sound_initial [of d]
  by (simp add: advances_def)

lemma run_append: "run env (steps @ later) w = run env later (run env steps w)"
  by (simp add: run_def)


section \<open>Properties of step-by-step mode and of the connection manager\<close>

lemma beginTransaction_begun:
  assumes "connect drv cfg w = (Inr c, w0)"
    and "tx_begin drv (next_id w0) (isolationLevel opt dflt) (dstate w0) = ((None, emitted), d1)"
  shows "fst (beginTransaction drv cfg dflt opt w) = Inr (next_id w0) \<and>
         rolledBack (snd (beginTransaction drv cfg dflt opt w)) (next_id w0) = Some emitted"
  using assms
  by (simp add: beginTransaction_def p_then_def tx_call_def resolve_def on_rollback_def Let_def)

lemma flag_stays_true:
  assumes "rolledBack (run env steps (initial d)) t = Some True"
  shows "rolledBack (run env (steps @ later) (initial d)) t = Some True"
proof -
  let ?w = "run env steps (initial d)"
  have "sound ?w" by (rule sound_run)
  moreover have "advances ?w (run env later ?w)" by (rule advances_run)
  ultimately show ?thesis
    using assms by (simp add: run_append advances_def)
qed

text \<open>
  C6. In step-by-step mode \<^verbatim>\<open>rollback\<close> on a transaction whose flag is true resolves and
  leaves the world as it is: no call reaches the driver. Otherwise it makes exactly
  one call, the rollback of that transaction, and unless the driver emits the event
  during it the flags stay as they are. \<^verbatim>\<open>beginTransaction\<close> hands out a transaction
  whose flag is false unless the event was emitted while it began; the event sets the
  flag of a transaction that has one; and from a new instance on, whatever is done
  next, a flag that is true stays true.
\<close>

theorem C6_step_rollback:
  "(rolledBack w t = Some True \<longrightarrow> rollback drv t w = (Inr (), w)) \<and>
   (rolledBack w t \<noteq> Some True
      \<longrightarrow> calls (snd (rollback drv t w)) = calls w @ [TxRollback t]) \<and>
   (tx_rollback drv t (dstate w) = ((r, False), d')
      \<longrightarrow> rolledBack (snd (rollback drv t w)) = rolledBack w) \<and>
   (connect drv cfg w = (Inr c, w0) \<and>
    tx_begin drv (next_id w0) (isolationLevel opt dflt) (dstate w0) = ((None, emitted), d1)
      \<longrightarrow> fst (beginTransaction drv cfg dflt opt w) = Inr (next_id w0) \<and>
          rolledBack (snd (beginTransaction drv cfg dflt opt w)) (next_id w0) = Some emitted) \<and>
   (rolledBack w t = Some b \<longrightarrow> rolledBack (on_rollback t w) t = Some True) \<and>
   (rolledBack (run env steps (initial d)) t = Some True
      \<longrightarrow> rolledBack (run env (steps @ later) (initial d)) t = Some True)"
proof -
  have skip: "rolledBack w t = Some True \<longrightarrow> rollback drv t w = (Inr (), w)"
    by (simp add: rollback_def resolve_def)
  have once: "rolledBack w t \<noteq> Some True
      \<longrightarrow> calls (snd (rollback drv t w)) = calls w @ [TxRollback t]"
    by (simp add: rollback_def tx_call_def Let_def split: prod.splits)
  have quiet: "tx_rollback drv t (dstate w) = ((r, False), d')
      \<longrightarrow> rolledBack (snd (rollback drv t w)) = rolledBack w"
    by (simp add: rollback_def resolve_def tx_call_def)
  have event: "rolledBack w t = Some b \<longrightarrow> rolledBack (on_rollback t w) t = Some True"
    by (simp add: on_rollback_def)
  from skip once quiet event
    beginTransaction_begun [of drv cfg w c w0 opt dflt emitted d1]
    flag_stays_true [of env steps d t later]
  show ?thesis by blast
qed

theorem C6_step_rollback_witness:
  "rollback quiet_driver 1 (connected\<lparr>rolledBack := [1 \<mapsto> True]\<rparr>)
     = (Inr (), connected\<lparr>rolledBack := [1 \<mapsto> True]\<rparr>) \<and>
   calls (snd (rollback quiet_driver 1 (connected\<lparr>rolledBack := [1 \<mapsto> False]\<rparr>)))
     = [NewPool 0, PoolConnect 0, TxRollback 1] \<and>
   fst (beginTransaction quiet_driver sample_config ''READ_COMMITTED'' None connected) = Inr 1 \<and>
   rolledBack (snd (beginTransaction quiet_driver sample_config ''READ_COMMITTED'' None connected)) 1
     = Some False \<and>
   rolledBack (run quiet_env
     [DoBegin sample_config None, Emitted 1, DoRollback 1, DoCommit 1] (initial ())) 1 = Some True"
proof -
  have h1: "connect quiet_driver sample_config connected = (Inr 0, connected)"
    by (simp add: connect_def getConnectionKey_def sample_config_def connected_def template_def
        resolve_def)
  have n: "next_id connected = 1" "calls connected = [NewPool 0, PoolConnect 0]"
    by (simp_all add: connected_def)
  have h2: "tx_begin quiet_driver (next_id connected) (isolationLevel None ''READ_COMMITTED'')
              (dstate connected) = ((None, False), ())"
    by (simp add: quiet_driver_def)
  have h3: "rolledBack (run quiet_env
              [DoBegin sample_config None, Emitted 1] (initial ())) 1 = Some True"
    by (simp add: run_def initial_def beginTransaction_def connect_def open_pool_def
        driver_call_def tx_call_def p_then_def resolve_def quiet_driver_def quiet_env_def
        on_rollback_def Let_def)
  show ?thesis
    using
      C6_step_rollback [where w = "connected\<lparr>rolledBack := [1 \<mapsto> True]\<rparr>" and t = 1
        and drv = quiet_driver and r = None and d' = "()" and cfg = sample_config and c = 0
        and ?w0.0 = "connected\<lparr>rolledBack := [1 \<mapsto> True]\<rparr>" and opt = None
        and dflt = "''READ_COMMITTED''" and emitted = False and ?d1.0 = "()"
        and b = True and env = quiet_env
        and steps = "[DoBegin sample_config None, Emitted 1]" and d = "()"
        and later = "[DoRollback 1, DoCommit 1]"]
      C6_step_rollback [where w = "connected\<lparr>rolledBack := [1 \<mapsto> False]\<rparr>" and t = 1
        and drv = quiet_driver and r = None and d' = "()" and cfg = sample_config and c = 0
        and ?w0.0 = "connected\<lparr>rolledBack := [1 \<mapsto> False]\<rparr>" and opt = None
        and dflt = "''READ_COMMITTED''" and emitted = False and ?d1.0 = "()"
        and b = False and env = quiet_env and steps = "[]" and d = "()" and later = "[]"]
      C6_step_rollback [where w = connected and t = 1
        and drv = quiet_driver and r = None and d' = "()" and cfg = sample_config
        and c = 0 and ?w0.0 = connected and opt = None and dflt = "''READ_COMMITTED''"
        and emitted = False and ?d1.0 = "()"
        and b = False and env = quiet_env and steps = "[]" and d = "()" and later = "[]"]
      h1 h2 h3
    by (simp add: n)
qed




end
